theory Spec2Isabelle
  imports Main
begin

section \<open>Exceptions, pipeline items and the outside world\<close>

text \<open>
  The program is \<^verbatim>\<open>src/cli/app.py\<close>: a chain of click subcommands, each returning a
  stream processor, composed by \<^verbatim>\<open>process_commands\<close>. Every raise of the source is a
  value here: a Python exception is its class together with the text \<^verbatim>\<open>str(e)\<close>.
  \<open>ExternalError\<close> stands for whatever class an external capability raises.
\<close>

datatype exc_class =
  FileNotFoundError | KeyError | IndexError | TypeError | AttributeError | ExternalError

datatype exc = Exc (cls: exc_class) (str_of: string)

text \<open>
  What flows through a pipeline: a data frame, or \<^verbatim>\<open>None\<close> (the value of a bare
  \<^verbatim>\<open>yield\<close>, as in \<^verbatim>\<open>head_cmd\<close>, \<^verbatim>\<open>to_cmd\<close> and both \<^verbatim>\<open>info_cmd\<close>).
\<close>

datatype 'df item = DF 'df | NoneItem

text \<open>
  The world outside the interpreter: what has been written to standard output and to the
  error channel (one entry per write), and the external state \<open>ext\<close> (the disk and the
  display options of pandas), which only the external capabilities read and change.
\<close>

record 'x world =
  stdout :: "string list"
  stderr :: "string list"
  ext :: 'x

definition echo :: "string \<Rightarrow> 'x world \<Rightarrow> 'x world" where
  \<comment> \<open>\<^verbatim>\<open>click.echo(s)\<close> and \<^verbatim>\<open>print(s)\<close>\<close>
  "echo s w = w\<lparr>stdout := stdout w @ [s]\<rparr>"

definition echo_err :: "string \<Rightarrow> 'x world \<Rightarrow> 'x world" where
  \<comment> \<open>\<^verbatim>\<open>click.echo(s, err=True)\<close>\<close>
  "echo_err s w = w\<lparr>stderr := stderr w @ [s]\<rparr>"

definition quoted :: "string \<Rightarrow> string" where
  "quoted s = CHR 0x27 # s @ [CHR 0x27]"

definition none_has_no_attribute :: "string \<Rightarrow> exc" where
  \<comment> \<open>attribute access on \<^verbatim>\<open>None\<close>\<close>
  "none_has_no_attribute a =
     Exc AttributeError (quoted ''NoneType'' @ '' object has no attribute '' @ quoted a)"

definition none_not_iterable :: exc where
  \<comment> \<open>\<^verbatim>\<open>iter(None)\<close>\<close>
  "none_not_iterable = Exc TypeError (quoted ''NoneType'' @ '' object is not iterable'')"

section \<open>External capabilities\<close>

text \<open>
  The imports of \<^verbatim>\<open>app.py\<close> that are not code of the repository are parameters of the
  model: \<^verbatim>\<open>os.path\<close>, \<^verbatim>\<open>ast.literal_eval\<close> and pandas. \<open>'df\<close> is the data frame,
  \<open>'x\<close> the external state and \<open>'v\<close> the values of the host language that a keyword
  argument may hold. A capability that may raise returns \<open>exc + _\<close> (or \<open>None\<close> for
  \<^verbatim>\<open>literal_eval\<close>, whose exception the source discards).
\<close>

record ('df, 'x, 'v) engine =
  os_isfile :: "'x \<Rightarrow> string \<Rightarrow> bool"
  os_splitext :: "string \<Rightarrow> string \<times> string"
  ast_literal_eval :: "string \<Rightarrow> 'v option"
  py_str :: "string \<Rightarrow> 'v"
  py_repr :: "string \<Rightarrow> string"
  pd_read_csv :: "string \<Rightarrow> (string \<rightharpoonup> 'v) \<Rightarrow> 'x \<Rightarrow> exc + 'df"
  pd_read_excel :: "string \<Rightarrow> (string \<rightharpoonup> 'v) \<Rightarrow> 'x \<Rightarrow> exc + 'df"
  df_to_csv :: "'df \<Rightarrow> 'v \<Rightarrow> (string \<rightharpoonup> 'v) \<Rightarrow> 'x \<Rightarrow> (exc + unit) \<times> 'x"
  df_to_excel :: "'df \<Rightarrow> 'v \<Rightarrow> (string \<rightharpoonup> 'v) \<Rightarrow> 'x \<Rightarrow> (exc + unit) \<times> 'x"
  df_query :: "'df \<Rightarrow> string \<Rightarrow> exc + 'df"
  df_head :: "'df \<Rightarrow> int \<Rightarrow> 'df"
  df_str :: "'x \<Rightarrow> 'df \<Rightarrow> string"
  df_info :: "'x \<Rightarrow> 'df \<Rightarrow> string"
  df_shape0 :: "'df \<Rightarrow> int"
  df_to_string :: "'x \<Rightarrow> 'df \<Rightarrow> string"
  pd_set_max_rows :: "int \<Rightarrow> 'x \<Rightarrow> 'x"

section \<open>The loose parameter parser\<close>

text \<open>\<^verbatim>\<open>str.split(sep)\<close> with a one-character separator: never an empty list.\<close>

fun str_split :: "char \<Rightarrow> string \<Rightarrow> string list" where
  "str_split c [] = [[]]"
| "str_split c (x # xs) =
     (if x = c then [] # str_split c xs
      else (case str_split c xs of
              [] \<Rightarrow> [[x]]
            | y # ys \<Rightarrow> (x # y) # ys))"

text \<open>
  The loop of \<^verbatim>\<open>args_to_dict\<close> over the segments. \<^verbatim>\<open>splitted[1]\<close> is evaluated
  inside the \<^verbatim>\<open>try\<close> and again inside the handler: with no second element the
  \<^verbatim>\<open>IndexError\<close> of the handler leaves the function. Otherwise the value is the literal,
  or the raw string when \<^verbatim>\<open>literal_eval\<close> raises. A later segment with the same key
  overwrites the earlier one.
\<close>

definition literal_or_raw :: "('df, 'x, 'v) engine \<Rightarrow> string \<Rightarrow> 'v" where
  "literal_or_raw E s1 =
     (case ast_literal_eval E s1 of
        Some v \<Rightarrow> v
      | None \<Rightarrow> py_str E s1)"

fun parse_params ::
  "('df, 'x, 'v) engine \<Rightarrow> string list \<Rightarrow> (string \<rightharpoonup> 'v) \<Rightarrow> exc + (string \<rightharpoonup> 'v)" where
  "parse_params E [] params_asdict = Inr params_asdict"
| "parse_params E (p # params) params_asdict =
     (case str_split CHR ''='' p of
        s0 # s1 # _ \<Rightarrow> parse_params E params (params_asdict(s0 \<mapsto> literal_or_raw E s1))
      | _ \<Rightarrow> Inl (Exc IndexError ''list index out of range''))"

definition args_to_dict :: "('df, 'x, 'v) engine \<Rightarrow> string \<Rightarrow> exc + (string \<rightharpoonup> 'v)" where
  "args_to_dict E arg =
     (if arg \<noteq> [] then parse_params E (str_split CHR ''|'' arg) Map.empty
      else Inr Map.empty)"


section \<open>Lazy streams\<close>

text \<open>
  A generator object is what its next \<^verbatim>\<open>next()\<close> does in a given world: it yields an
  item and becomes the rest of itself, or it returns (\<open>Stop\<close>), or it raises. Nothing of a
  generator's body runs before it is resumed. The type is inductive, so every stream is
  finite.
\<close>

datatype ('a, 'g) step = Yield 'a 'g | Stop | Raise exc

datatype ('a, 'w) gen = Gen (resume: "'w \<Rightarrow> ('a, ('a, 'w) gen) step \<times> 'w")

text \<open>
  The objects that stand where the source has a stream: \<^verbatim>\<open>None\<close> (what the adapter
  returns after an exception), the empty tuple \<^verbatim>\<open>()\<close> (the start of
  \<^verbatim>\<open>process_commands\<close>), or a generator.
\<close>

datatype ('a, 'w) stream = NoneValue | EmptyTuple | Generator "('a, 'w) gen"

definition finished :: "('a, 'w) gen" where
  \<comment> \<open>the end of a generator's body\<close>
  "finished = Gen (\<lambda>w. (Stop, w))"

fun iter :: "('a, 'w) stream \<Rightarrow> ('a, 'w) gen" where
  \<comment> \<open>what \<^verbatim>\<open>for x in s\<close> and \<^verbatim>\<open>yield from s\<close> iterate\<close>
  "iter NoneValue = Gen (\<lambda>w. (Raise none_not_iterable, w))"
| "iter EmptyTuple = Gen (\<lambda>w. (Stop, w))"
| "iter (Generator g) = g"

definition gen_rest :: "(('a, 'w) gen \<times> ('a, 'w) gen) set" where
  "gen_rest = {(g', g). \<exists>w x w'. resume g w = (Yield x g', w')}"

lemma wf_gen_rest: "wf gen_rest"
proof (rule wfUNIVI)
  fix P :: "('a, 'w) gen \<Rightarrow> bool" and g
  assume step: "\<forall>g. (\<forall>g'. (g', g) \<in> gen_rest \<longrightarrow> P g') \<longrightarrow> P g"
  show "P g"
  proof (induction g)
    case (Gen k)
    have "P g'" if "(g', Gen k) \<in> gen_rest" for g'
    proof -
      from that obtain w x w' where kw: "k w = (Yield x g', w')"
        by (auto simp: gen_rest_def)
      have "k w \<in> range k" by (rule rangeI)
      moreover have "Yield x g' \<in> Basic_BNFs.fsts (k w)" by (simp add: kw)
      moreover have "g' \<in> set2_step (Yield x g')" by simp
      ultimately show ?thesis using Gen.IH by blast
    qed
    then show ?case using step by blast
  qed
qed

lemma gen_rest_I: "(Yield x g', w') = k w \<Longrightarrow> (g', Gen k) \<in> gen_rest"
  by (auto simp: gen_rest_def dest: sym)

text \<open>
  The generator of a body \<^verbatim>\<open>for x in g: <body>; yield y\<close>: each resumption pulls one
  item of \<open>g\<close>, runs the body on it (which may raise) and yields the body's value.
\<close>

function for_yield ::
  "('a \<Rightarrow> 'w \<Rightarrow> (exc + 'b) \<times> 'w) \<Rightarrow> ('a, 'w) gen \<Rightarrow> ('b, 'w) gen" where
  "for_yield body (Gen k) = Gen (\<lambda>w.
     case k w of
       (Yield x rest, w1) \<Rightarrow>
         (case body x w1 of
            (Inl e, w2) \<Rightarrow> (Raise e, w2)
          | (Inr y, w2) \<Rightarrow> (Yield y (for_yield body rest), w2))
     | (Stop, w1) \<Rightarrow> (Stop, w1)
     | (Raise e, w1) \<Rightarrow> (Raise e, w1))"
  by pat_completeness auto
termination
  by (relation "inv_image gen_rest snd") (auto simp: wf_gen_rest intro: gen_rest_I)

text \<open>The generator of \<^verbatim>\<open>yield from g\<close> followed by the statements \<open>after\<close>.\<close>

function yield_from :: "('a, 'w) gen \<Rightarrow> ('a, 'w) gen \<Rightarrow> ('a, 'w) gen" where
  "yield_from (Gen k) after = Gen (\<lambda>w.
     case k w of
       (Yield x rest, w1) \<Rightarrow> (Yield x (yield_from rest after), w1)
     | (Stop, w1) \<Rightarrow> resume after w1
     | (Raise e, w1) \<Rightarrow> (Raise e, w1))"
  by pat_completeness auto
termination
  by (relation "inv_image gen_rest fst") (auto simp: wf_gen_rest intro: gen_rest_I)

text \<open>\<^verbatim>\<open>for _ in stream: pass\<close>: an exception of the stream leaves the loop.\<close>

function drain :: "('a, 'w) gen \<Rightarrow> 'w \<Rightarrow> (exc + unit) \<times> 'w" where
  "drain (Gen k) w =
     (case k w of
        (Yield x rest, w1) \<Rightarrow> drain rest w1
      | (Stop, w1) \<Rightarrow> (Inr (), w1)
      | (Raise e, w1) \<Rightarrow> (Inl e, w1))"
  by pat_completeness auto
termination
  by (relation "inv_image gen_rest fst") (auto simp: wf_gen_rest intro: gen_rest_I)

text \<open>
  An observation, not a function of the source: the items a consumer obtains when it
  resumes \<open>g\<close> until it stops or raises, the exception if it raised, and the world then.
\<close>

function collect :: "('a, 'w) gen \<Rightarrow> 'w \<Rightarrow> 'a list \<times> exc option \<times> 'w" where
  "collect (Gen k) w =
     (case k w of
        (Yield x rest, w1) \<Rightarrow> (case collect rest w1 of (xs, r, w2) \<Rightarrow> (x # xs, r, w2))
      | (Stop, w1) \<Rightarrow> ([], None, w1)
      | (Raise e, w1) \<Rightarrow> ([], Some e, w1))"
  by pat_completeness auto
termination
  by (relation "inv_image gen_rest fst") (auto simp: wf_gen_rest intro: gen_rest_I)

section \<open>The stage adapters\<close>

text \<open>
  A call of a Python function that returns a stream: it may raise at the call, and it may
  act on the world. A function whose body contains \<^verbatim>\<open>yield\<close> is a generator function:
  the call binds the arguments and returns the generator object, and no statement of the
  body runs before the first \<^verbatim>\<open>next()\<close>.
\<close>

type_synonym ('a, 'w) call = "'w \<Rightarrow> (exc + ('a, 'w) stream) \<times> 'w"

definition call_generator :: "('a, 'w) gen \<Rightarrow> ('a, 'w) call" where
  "call_generator g = (\<lambda>w. (Inr (Generator g), w))"

text \<open>
  \<^verbatim>\<open>processor(f)\<close> with the arguments of the subcommand bound in \<open>f\<close>: the inner function
  \<^verbatim>\<open>processor(stream)\<close>. The \<^verbatim>\<open>try\<close> encloses the call \<^verbatim>\<open>f(stream, ...)\<close> and the
  \<^verbatim>\<open>return\<close>; the handler echoes and falls off the end of the function, which returns
  \<^verbatim>\<open>None\<close>. Every exception of the model is an \<^verbatim>\<open>Exception\<close>, so the handler takes
  whatever the call raises.
\<close>

definition processor ::
  "(('a, 'x world) stream \<Rightarrow> ('a, 'x world) call) \<Rightarrow> ('a, 'x world) stream \<Rightarrow> ('a, 'x world) call" where
  "processor f = (\<lambda>stream w.
     case f stream w of
       (Inr result, w1) \<Rightarrow> (Inr result, w1)
     | (Inl e, w1) \<Rightarrow> (Inr NoneValue, echo_err (''Error: '' @ str_of e) w1))"

text \<open>
  The generator function \<^verbatim>\<open>new_func\<close> inside \<^verbatim>\<open>generator(f)\<close>:
  \<^verbatim>\<open>yield from stream\<close>, then the call \<^verbatim>\<open>f(...)\<close> and \<^verbatim>\<open>yield from\<close> its result.
\<close>

definition new_func :: "('a, 'w) call \<Rightarrow> ('a, 'w) stream \<Rightarrow> ('a, 'w) gen" where
  "new_func f stream =
     yield_from (iter stream)
       (Gen (\<lambda>w. case f w of
                   (Inl e, w1) \<Rightarrow> (Raise e, w1)
                 | (Inr produced, w1) \<Rightarrow> resume (yield_from (iter produced) finished) w1))"

definition generator :: "('a, 'x world) call \<Rightarrow> ('a, 'x world) stream \<Rightarrow> ('a, 'x world) call" where
  \<comment> \<open>\<^verbatim>\<open>@processor\<close> on \<^verbatim>\<open>new_func\<close>\<close>
  "generator f = processor (\<lambda>stream. call_generator (new_func f stream))"

section \<open>The stage library\<close>

definition CONFIG_read_functions ::
  "('df, 'x, 'v) engine \<Rightarrow> string \<rightharpoonup> (string \<Rightarrow> (string \<rightharpoonup> 'v) \<Rightarrow> 'x \<Rightarrow> exc + 'df)" where
  "CONFIG_read_functions E = [''.csv'' \<mapsto> pd_read_csv E, ''.xlsx'' \<mapsto> pd_read_excel E]"

text \<open>
  The two lambdas of \<^verbatim>\<open>CONFIG["to_functions"]\<close>, \<^verbatim>\<open>lambda df, **kwargs: ...\<close>, called as
  \<^verbatim>\<open>to_func(df, buf=filename, **pd_params)\<close>. Binding the arguments comes first: a key
  \<^verbatim>\<open>df\<close> among the keyword arguments collides with the positional parameter. In the
  body the attribute \<^verbatim>\<open>df.to_csv\<close> is looked up (the item may be \<^verbatim>\<open>None\<close>), then
  \<^verbatim>\<open>kwargs.pop("buf")\<close> is evaluated. The texts of the two \<^verbatim>\<open>TypeError\<close>s of a call
  are those of CPython for the module \<^verbatim>\<open>cli.app\<close>.
\<close>

definition to_lambda ::
  "('df, 'x, 'v) engine \<Rightarrow> string \<Rightarrow> ('df \<Rightarrow> 'v \<Rightarrow> (string \<rightharpoonup> 'v) \<Rightarrow> 'x \<Rightarrow> (exc + unit) \<times> 'x)
     \<Rightarrow> 'df item \<Rightarrow> (string \<rightharpoonup> 'v) \<Rightarrow> 'x \<Rightarrow> (exc + unit) \<times> 'x" where
  "to_lambda E attr to_method df kwargs x =
     (if ''df'' \<in> dom kwargs
      then (Inl (Exc TypeError (''<lambda>() got multiple values for argument '' @ quoted ''df'')), x)
      else
        (case df of
           NoneItem \<Rightarrow> (Inl (none_has_no_attribute attr), x)
         | DF d \<Rightarrow>
             (case kwargs ''buf'' of
                None \<Rightarrow> (Inl (Exc KeyError (py_repr E ''buf'')), x)
              | Some buf \<Rightarrow> to_method d buf (kwargs(''buf'' := None)) x)))"

definition CONFIG_to_functions ::
  "('df, 'x, 'v) engine \<Rightarrow> string \<rightharpoonup> ('df item \<Rightarrow> (string \<rightharpoonup> 'v) \<Rightarrow> 'x \<Rightarrow> (exc + unit) \<times> 'x)" where
  "CONFIG_to_functions E =
     [''.csv'' \<mapsto> to_lambda E ''to_csv'' (df_to_csv E),
      ''.xlsx'' \<mapsto> to_lambda E ''to_excel'' (df_to_excel E)]"

text \<open>
  The body of \<^verbatim>\<open>read_cmd\<close>, a generator function. The second \<^verbatim>\<open>if\<close> repeats the test
  of the first; were it false the body would end without a yield. The parameters are
  parsed on the line before the one that subscripts \<^verbatim>\<open>read_func\<close> with the extension.
\<close>

definition read_cmd ::
  "('df, 'x, 'v) engine \<Rightarrow> string \<Rightarrow> string \<Rightarrow> ('df item, 'x world) gen" where
  "read_cmd E filename params = Gen (\<lambda>w.
     if \<not> os_isfile E (ext w) filename
     then (Raise (Exc FileNotFoundError (filename @ '' not found.'')), w)
     else if os_isfile E (ext w) filename
     then (case os_splitext E filename of
             (fname, fextension) \<Rightarrow>
               (case (if params \<noteq> [] then args_to_dict E params else Inr Map.empty) of
                  Inl e \<Rightarrow> (Raise e, w)
                | Inr pd_params \<Rightarrow>
                    (case CONFIG_read_functions E fextension of
                       None \<Rightarrow> (Raise (Exc KeyError (py_repr E fextension)), w)
                     | Some read_func \<Rightarrow>
                         (case read_func filename pd_params (ext w) of
                            Inl e \<Rightarrow> (Raise e, w)
                          | Inr df \<Rightarrow> (Yield (DF df) finished, w)))))
     else (Stop, w))"

text \<open>The loop bodies of the transform stages, one incoming item at a time.\<close>

definition head_body ::
  "('df, 'x, 'v) engine \<Rightarrow> int \<Rightarrow> 'df item \<Rightarrow> 'x world \<Rightarrow> (exc + 'df item) \<times> 'x world" where
  "head_body E lines df w =
     (case df of
        NoneItem \<Rightarrow> (Inl (none_has_no_attribute ''head''), w)
      | DF d \<Rightarrow> (Inr NoneItem, echo (df_str E (ext w) (df_head E d lines)) w))"

definition filter_body ::
  "('df, 'x, 'v) engine \<Rightarrow> string \<Rightarrow> 'df item \<Rightarrow> 'x world \<Rightarrow> (exc + 'df item) \<times> 'x world" where
  "filter_body E expression df w =
     (case df of
        NoneItem \<Rightarrow> (Inl (none_has_no_attribute ''query''), w)
      | DF d \<Rightarrow>
          (case df_query E d expression of
             Inl e \<Rightarrow> (Inl e, w)
           | Inr d' \<Rightarrow> (Inr (DF d'), echo (df_str E (ext w) d') w)))"

text \<open>
  \<^verbatim>\<open>to_cmd\<close>: the option \<^verbatim>\<open>-f\<close> is not required, so \<^verbatim>\<open>filename\<close> may be \<^verbatim>\<open>None\<close>,
  which \<^verbatim>\<open>os.path.splitext\<close> rejects. The call \<^verbatim>\<open>to_func(df, buf=filename, **pd_params)\<close>
  raises before the lambda is entered when \<^verbatim>\<open>pd_params\<close> has a key \<^verbatim>\<open>buf\<close> of its own,
  and on entering it when \<^verbatim>\<open>pd_params\<close> has a key \<^verbatim>\<open>df\<close> (see \<open>to_lambda\<close>).
\<close>

definition to_body ::
  "('df, 'x, 'v) engine \<Rightarrow> string option \<Rightarrow> string \<Rightarrow> 'df item \<Rightarrow> 'x world
     \<Rightarrow> (exc + 'df item) \<times> 'x world" where
  "to_body E filename params df w =
     (case filename of
        None \<Rightarrow>
          (Inl (Exc TypeError ''expected str, bytes or os.PathLike object, not NoneType''), w)
      | Some fn \<Rightarrow>
          (case os_splitext E fn of
             (fname, fextension) \<Rightarrow>
               (case CONFIG_to_functions E fextension of
                  None \<Rightarrow> (Inl (Exc KeyError (py_repr E fextension)), w)
                | Some to_func \<Rightarrow>
                    (case (if params \<noteq> [] then args_to_dict E params else Inr Map.empty) of
                       Inl e \<Rightarrow> (Inl e, w)
                     | Inr pd_params \<Rightarrow>
                         (if ''buf'' \<in> dom pd_params
                          then (Inl (Exc TypeError
                                  (''cli.app.<lambda>() got multiple values for keyword argument ''
                                     @ quoted ''buf'')), w)
                          else (case to_func df (pd_params(''buf'' \<mapsto> py_str E fn)) (ext w) of
                                  (Inl e, x) \<Rightarrow> (Inl e, w\<lparr>ext := x\<rparr>)
                                | (Inr u, x) \<Rightarrow> (Inr NoneItem, w\<lparr>ext := x\<rparr>)))))))"

text \<open>
  \<^verbatim>\<open>info_cmd\<close> (command \<^verbatim>\<open>info\<close>): \<^verbatim>\<open>df.info()\<close> writes its text and returns
  \<^verbatim>\<open>None\<close>, which \<^verbatim>\<open>click.echo\<close> writes as an empty line.
\<close>

definition info_body ::
  "('df, 'x, 'v) engine \<Rightarrow> 'df item \<Rightarrow> 'x world \<Rightarrow> (exc + 'df item) \<times> 'x world" where
  "info_body E df w =
     (case df of
        NoneItem \<Rightarrow> (Inl (none_has_no_attribute ''info''), w)
      | DF d \<Rightarrow> (Inr NoneItem, echo [] (echo (df_info E (ext w) d) w)))"

text \<open>The second \<^verbatim>\<open>info_cmd\<close> of the file, registered as command \<^verbatim>\<open>print\<close>.\<close>

definition print_body ::
  "('df, 'x, 'v) engine \<Rightarrow> 'df item \<Rightarrow> 'x world \<Rightarrow> (exc + 'df item) \<times> 'x world" where
  "print_body E df w =
     (case df of
        NoneItem \<Rightarrow> (Inl (none_has_no_attribute ''shape''), w)
      | DF d \<Rightarrow>
          (let x = pd_set_max_rows E (df_shape0 E d + 1) (ext w)
           in (Inr NoneItem, echo (df_to_string E x d) (w\<lparr>ext := x\<rparr>))))"

definition head_cmd ::
  "('df, 'x, 'v) engine \<Rightarrow> ('df item, 'x world) stream \<Rightarrow> int \<Rightarrow> ('df item, 'x world) gen" where
  "head_cmd E dfs lines = for_yield (head_body E lines) (iter dfs)"

definition filter_cmd ::
  "('df, 'x, 'v) engine \<Rightarrow> ('df item, 'x world) stream \<Rightarrow> string \<Rightarrow> ('df item, 'x world) gen" where
  "filter_cmd E dfs expression = for_yield (filter_body E expression) (iter dfs)"

definition to_cmd ::
  "('df, 'x, 'v) engine \<Rightarrow> ('df item, 'x world) stream \<Rightarrow> string option \<Rightarrow> string
     \<Rightarrow> ('df item, 'x world) gen" where
  "to_cmd E dfs filename params = for_yield (to_body E filename params) (iter dfs)"

definition info_cmd ::
  "('df, 'x, 'v) engine \<Rightarrow> ('df item, 'x world) stream \<Rightarrow> ('df item, 'x world) gen" where
  "info_cmd E dfs = for_yield (info_body E) (iter dfs)"

definition print_cmd ::
  "('df, 'x, 'v) engine \<Rightarrow> ('df item, 'x world) stream \<Rightarrow> ('df item, 'x world) gen" where
  "print_cmd E dfs = for_yield (print_body E) (iter dfs)"

text \<open>
  The chained subcommands of one invocation, with their options, and the stream processor
  that each decorated command returns.
\<close>

datatype command =
  Read string string
| Head int
| Filter string
| To "string option" string
| Info
| Print

fun stage ::
  "('df, 'x, 'v) engine \<Rightarrow> command \<Rightarrow> ('df item, 'x world) stream \<Rightarrow> ('df item, 'x world) call" where
  "stage E (Read filename params) = generator (call_generator (read_cmd E filename params))"
| "stage E (Head lines) = processor (\<lambda>dfs. call_generator (head_cmd E dfs lines))"
| "stage E (Filter expression) = processor (\<lambda>dfs. call_generator (filter_cmd E dfs expression))"
| "stage E (To filename params) = processor (\<lambda>dfs. call_generator (to_cmd E dfs filename params))"
| "stage E Info = processor (\<lambda>dfs. call_generator (info_cmd E dfs))"
| "stage E Print = processor (\<lambda>dfs. call_generator (print_cmd E dfs))"

section \<open>The pipeline composer\<close>

text \<open>
  \<^verbatim>\<open>process_commands\<close>: the first loop pipes the empty tuple through the processors in
  order, the second consumes the stream. An exception that reaches it leaves the callback
  (\<open>Inl\<close>): the process ends with a traceback instead of returning.
\<close>

fun pipe_through ::
  "(('a, 'w) stream \<Rightarrow> ('a, 'w) call) list \<Rightarrow> ('a, 'w) stream \<Rightarrow> ('a, 'w) call" where
  "pipe_through [] stream w = (Inr stream, w)"
| "pipe_through (proc # processors) stream w =
     (case proc stream w of
        (Inl e, w1) \<Rightarrow> (Inl e, w1)
      | (Inr stream', w1) \<Rightarrow> pipe_through processors stream' w1)"

definition process_commands ::
  "(('a, 'w) stream \<Rightarrow> ('a, 'w) call) list \<Rightarrow> 'w \<Rightarrow> (exc + unit) \<times> 'w" where
  "process_commands processors w =
     (case pipe_through processors EmptyTuple w of
        (Inl e, w1) \<Rightarrow> (Inl e, w1)
      | (Inr stream, w1) \<Rightarrow> drain (iter stream) w1)"

text \<open>
  The composition as the specification words it: \<open>stream_at ps i\<close> is \<open>stream\<^sub>i\<close>, with
  \<open>stream\<^sub>0\<close> the empty stream and \<open>stream\<^sub>i = stage\<^sub>i(stream\<^sub>i\<^sub>-\<^sub>1)\<close>.
\<close>

fun stream_at ::
  "(('a, 'w) stream \<Rightarrow> ('a, 'w) call) list \<Rightarrow> nat \<Rightarrow> ('a, 'w) call" where
  "stream_at ps 0 w = (Inr EmptyTuple, w)"
| "stream_at ps (Suc i) w =
     (case stream_at ps i w of
        (Inl e, w1) \<Rightarrow> (Inl e, w1)
      | (Inr s, w1) \<Rightarrow> (ps ! i) s w1)"

section \<open>What a chain of stages does to one item\<close>

text \<open>
  A transform stage is every command but \<^verbatim>\<open>read\<close>. \<open>loop_body\<close> is what a stage does
  to an item that passes through it: the body of its loop, and nothing for \<^verbatim>\<open>read\<close>,
  whose \<^verbatim>\<open>yield from stream\<close> hands the item on. \<open>push_item\<close> sends one item through the
  bodies in order and stops at the first that raises.
\<close>

fun is_transform :: "command \<Rightarrow> bool" where
  "is_transform (Read filename params) = False"
| "is_transform c = True"

fun loop_body ::
  "('df, 'x, 'v) engine \<Rightarrow> command \<Rightarrow> 'df item \<Rightarrow> 'x world \<Rightarrow> (exc + 'df item) \<times> 'x world" where
  "loop_body E (Read filename params) = (\<lambda>df w. (Inr df, w))"
| "loop_body E (Head lines) = head_body E lines"
| "loop_body E (Filter expression) = filter_body E expression"
| "loop_body E (To filename params) = to_body E filename params"
| "loop_body E Info = info_body E"
| "loop_body E Print = print_body E"

fun push_item :: "('a \<Rightarrow> 'w \<Rightarrow> (exc + 'a) \<times> 'w) list \<Rightarrow> 'a \<Rightarrow> 'w \<Rightarrow> (exc + 'a) \<times> 'w" where
  "push_item [] x w = (Inr x, w)"
| "push_item (body # bodies) x w =
     (case body x w of
        (Inl e, w1) \<Rightarrow> (Inl e, w1)
      | (Inr y, w1) \<Rightarrow> push_item bodies y w1)"

text \<open>
  The order the specification asks for, for a whole command line: what a chain of commands
  yields from nothing. Each \<^verbatim>\<open>read\<close>, in command-line order, contributes what
  \<^verbatim>\<open>read_cmd\<close> yields, sent through the loop bodies of the commands after it; a
  transform stage contributes nothing of its own. The next source is consumed only when
  the one before it is exhausted.
\<close>

fun in_order :: "('df, 'x, 'v) engine \<Rightarrow> command list \<Rightarrow> ('df item, 'x world) gen" where
  "in_order E [] = finished"
| "in_order E (Read filename params # cs) =
     yield_from (for_yield (push_item (map (loop_body E) cs)) (read_cmd E filename params))
       (in_order E cs)"
| "in_order E (c # cs) = in_order E cs"

section \<open>A small engine to run the model on\<close>

text \<open>
  A stand-in for the external capabilities, to evaluate the model on examples: a data
  frame is its rows, the disk lists file names with their rows, a query drops the rows
  equal to the expression and rejects an expression with an opening parenthesis, and the
  literals are \<^verbatim>\<open>True\<close>, \<^verbatim>\<open>False\<close>, \<^verbatim>\<open>None\<close> and the decimal numerals.
\<close>

datatype pyval = VNone | VBool bool | VInt int | VStr string

type_synonym demo_frame = "string list"

type_synonym demo_disk = "(string \<times> string list) list"

definition posix_splitext :: "string \<Rightarrow> string \<times> string" where
  \<comment> \<open>\<^verbatim>\<open>os.path.splitext\<close>: the last dot of the last component, leading dots apart\<close>
  "posix_splitext p =
     (let rbase = takeWhile (\<lambda>c. c \<noteq> CHR ''/'') (rev p) in
      if CHR ''.'' \<notin> set rbase then (p, [])
      else
        (let n = Suc (length (takeWhile (\<lambda>c. c \<noteq> CHR ''.'') rbase)) in
         if \<exists>c \<in> set (drop n rbase). c \<noteq> CHR ''.''
         then (take (length p - n) p, drop (length p - n) p)
         else (p, [])))"

definition demo_literal_eval :: "string \<Rightarrow> pyval option" where
  "demo_literal_eval s =
     (if s = ''True'' then Some (VBool True)
      else if s = ''False'' then Some (VBool False)
      else if s = ''None'' then Some VNone
      else if s \<noteq> [] \<and> (\<forall>c \<in> set s. c \<in> set ''0123456789'') \<and> (s = ''0'' \<or> hd s \<noteq> CHR ''0'')
      then Some (VInt (foldl (\<lambda>n c. 10 * n + (of_char c - 48)) 0 s))
      else None)"

definition demo_read :: "string \<Rightarrow> (string \<rightharpoonup> pyval) \<Rightarrow> demo_disk \<Rightarrow> exc + demo_frame" where
  "demo_read filename kwargs disk =
     (case map_of disk filename of
        None \<Rightarrow> Inl (Exc FileNotFoundError filename)
      | Some rows \<Rightarrow> Inr rows)"

definition demo_write ::
  "demo_frame \<Rightarrow> pyval \<Rightarrow> (string \<rightharpoonup> pyval) \<Rightarrow> demo_disk \<Rightarrow> (exc + unit) \<times> demo_disk" where
  "demo_write df buf kwargs disk =
     (case buf of
        VStr filename \<Rightarrow> (Inr (), (filename, df) # disk)
      | _ \<Rightarrow> (Inl (Exc TypeError ''invalid file path or buffer''), disk))"

definition demo_query :: "demo_frame \<Rightarrow> string \<Rightarrow> exc + demo_frame" where
  "demo_query df expression =
     (if CHR ''('' \<in> set expression then Inl (Exc ExternalError ''invalid syntax'')
      else Inr (filter (\<lambda>row. row \<noteq> expression) df))"

definition demo_render :: "demo_disk \<Rightarrow> demo_frame \<Rightarrow> string" where
  "demo_render disk df = concat (map (\<lambda>row. row @ [CHR 0x0A]) df)"

definition demo_engine :: "(demo_frame, demo_disk, pyval) engine" where
  "demo_engine = \<lparr>
     os_isfile = (\<lambda>disk filename. map_of disk filename \<noteq> None),
     os_splitext = posix_splitext,
     ast_literal_eval = demo_literal_eval,
     py_str = VStr,
     py_repr = quoted,
     pd_read_csv = demo_read,
     pd_read_excel = demo_read,
     df_to_csv = demo_write,
     df_to_excel = demo_write,
     df_query = demo_query,
     df_head = (\<lambda>df n. if 0 \<le> n then take (nat n) df else take (length df - nat (- n)) df),
     df_str = demo_render,
     df_info = (\<lambda>disk df. ''rows''),
     df_shape0 = (\<lambda>df. int (length df)),
     df_to_string = demo_render,
     pd_set_max_rows = (\<lambda>n disk. disk) \<rparr>"

definition demo_world :: "demo_disk world" where
  "demo_world = \<lparr> stdout = [], stderr = [],
     ext = [(''a.csv'', [''x'', ''1'', ''2'']), (''b.csv'', [''x'', ''3'']), (''notes.txt'', [''hello''])] \<rparr>"

section \<open>The parser: well-formed strings and segments without an equals sign\<close>

lemma str_split_no_sep: "c \<notin> set xs \<Longrightarrow> str_split c xs = [xs]"
  by (induction xs) auto





lemma args_to_dict_empty: "args_to_dict E [] = Inr Map.empty"
  by (simp add: args_to_dict_def)


lemma parse_params_no_equals:
  assumes "\<exists>p \<in> set ps. CHR ''='' \<notin> set p"
  shows "parse_params E ps d = Inl (Exc IndexError ''list index out of range'')"
  using assms
proof (induction ps arbitrary: d)
  case Nil
  then show ?case by simp
next
  case (Cons p ps)
  show ?case
  proof (cases "CHR ''='' \<in> set p")
    case False
    then show ?thesis by (simp add: str_split_no_sep)
  next
    case True
    then have "\<exists>p \<in> set ps. CHR ''='' \<notin> set p" using Cons.prems by auto
    then show ?thesis using Cons.IH by (simp split: list.splits)
  qed
qed



text \<open>
  C9. A non-empty loose-parameter string with a segment that has no equals sign makes
  \<^verbatim>\<open>args_to_dict\<close> raise \<^verbatim>\<open>IndexError\<close>: the whole parse fails and no mapping is
  returned, so no entry is made for the segment.
\<close>

theorem args_to_dict_no_equals:
  assumes "arg \<noteq> []" and "\<exists>p \<in> set (str_split CHR ''|'' arg). CHR ''='' \<notin> set p"
  shows "args_to_dict E arg = Inl (Exc IndexError ''list index out of range'')"
  using assms by (simp add: args_to_dict_def parse_params_no_equals)

theorem args_to_dict_no_equals_witness:
  "args_to_dict demo_engine ''a=1|b'' = Inl (Exc IndexError ''list index out of range'')"
  using args_to_dict_no_equals [of "''a=1|b''" demo_engine]
  by simp

section \<open>One resumption of each construct\<close>

lemma resume_for_yield:
  "resume (for_yield body g) w =
     (case resume g w of
        (Yield x rest, w1) \<Rightarrow>
          (case body x w1 of
             (Inl e, w2) \<Rightarrow> (Raise e, w2)
           | (Inr y, w2) \<Rightarrow> (Yield y (for_yield body rest), w2))
      | (Stop, w1) \<Rightarrow> (Stop, w1)
      | (Raise e, w1) \<Rightarrow> (Raise e, w1))"
  by (cases g) simp

lemma resume_yield_from:
  "resume (yield_from g after) w =
     (case resume g w of
        (Yield x rest, w1) \<Rightarrow> (Yield x (yield_from rest after), w1)
      | (Stop, w1) \<Rightarrow> resume after w1
      | (Raise e, w1) \<Rightarrow> (Raise e, w1))"
  by (cases g) simp

lemma drain_resume:
  "drain g w =
     (case resume g w of
        (Yield x rest, w1) \<Rightarrow> drain rest w1
      | (Stop, w1) \<Rightarrow> (Inr (), w1)
      | (Raise e, w1) \<Rightarrow> (Inl e, w1))"
  by (cases g) simp

lemma collect_resume:
  "collect g w =
     (case resume g w of
        (Yield x rest, w1) \<Rightarrow> (case collect rest w1 of (xs, r, w2) \<Rightarrow> (x # xs, r, w2))
      | (Stop, w1) \<Rightarrow> ([], None, w1)
      | (Raise e, w1) \<Rightarrow> ([], Some e, w1))"
  by (cases g) simp

lemma collect_finished: "collect finished w = ([], None, w)"
  by (simp add: finished_def)

lemma drain_collect:
  "drain g w = (case collect g w of (xs, None, w1) \<Rightarrow> (Inr (), w1) | (xs, Some e, w1) \<Rightarrow> (Inl e, w1))"
proof (induction g w rule: collect.induct)
  case (1 k w)
  show ?case
  proof (cases "k w")
    case (Pair st w1)
    show ?thesis
    proof (cases st)
      case (Yield x rest)
      with Pair 1 [OF Pair [symmetric] Yield] show ?thesis
        by (simp split: prod.splits option.splits)
    qed (use Pair in simp_all)
  qed
qed

lemma collect_yield_from:
  "collect (yield_from g after) w =
     (case collect g w of
        (xs, Some e, w1) \<Rightarrow> (xs, Some e, w1)
      | (xs, None, w1) \<Rightarrow> (case collect after w1 of (ys, r, w2) \<Rightarrow> (xs @ ys, r, w2)))"
proof (induction g w rule: collect.induct)
  case (1 k w)
  show ?case
  proof (cases "k w")
    case (Pair st w1)
    show ?thesis
    proof (cases st)
      case (Yield x rest)
      with Pair 1 [OF Pair [symmetric] Yield] show ?thesis
        by (simp split: prod.splits option.splits)
    next
      case Stop
      with Pair show ?thesis
        by (simp add: collect_resume [of after] split: prod.splits)
    next
      case (Raise e)
      with Pair show ?thesis by simp
    qed
  qed
qed

lemma for_yield_for_yield:
  "for_yield b2 (for_yield b1 g) =
     for_yield (\<lambda>x w. case b1 x w of (Inl e, w1) \<Rightarrow> (Inl e, w1) | (Inr y, w1) \<Rightarrow> b2 y w1) g"
proof (induction b1 g rule: for_yield.induct)
  case (1 body k)
  have "(case (case k w of
             (Yield x rest, w1) \<Rightarrow>
               (case body x w1 of
                  (Inl e, w2) \<Rightarrow> (Raise e, w2)
                | (Inr y, w2) \<Rightarrow> (Yield y (for_yield body rest), w2))
           | (Stop, w1) \<Rightarrow> (Stop, w1)
           | (Raise e, w1) \<Rightarrow> (Raise e, w1)) of
          (Yield x rest, w1) \<Rightarrow>
            (case b2 x w1 of
               (Inl e, w2) \<Rightarrow> (Raise e, w2)
             | (Inr y, w2) \<Rightarrow> (Yield y (for_yield b2 rest), w2))
        | (Stop, w1) \<Rightarrow> (Stop, w1)
        | (Raise e, w1) \<Rightarrow> (Raise e, w1))
      = (case k w of
           (Yield x rest, w1) \<Rightarrow>
             (case (case body x w1 of (Inl e, w1) \<Rightarrow> (Inl e, w1) | (Inr y, w1) \<Rightarrow> b2 y w1) of
                (Inl e, w2) \<Rightarrow> (Raise e, w2)
              | (Inr y, w2) \<Rightarrow>
                  (Yield y (for_yield (\<lambda>x w. case body x w of (Inl e, w1) \<Rightarrow> (Inl e, w1)
                                                | (Inr y, w1) \<Rightarrow> b2 y w1) rest), w2))
         | (Stop, w1) \<Rightarrow> (Stop, w1)
         | (Raise e, w1) \<Rightarrow> (Raise e, w1))" for w
  proof (cases "k w")
    case kw: (Pair st w1)
    show ?thesis
    proof (cases st)
      case (Yield x rest)
      show ?thesis
      proof (cases "body x w1")
        case bx: (Pair r w2)
        show ?thesis
        proof (cases r)
          case (Inl e)
          with kw Yield bx show ?thesis by simp
        next
          case (Inr y)
          with kw Yield bx 1 [OF kw [symmetric] Yield bx [symmetric] Inr] show ?thesis
            by (simp split: prod.splits sum.splits)
        qed
      qed
    qed (use kw in simp_all)
  qed
  then show ?case by simp
qed

lemma for_yield_ident: "for_yield (\<lambda>x w. (Inr x, w)) g = g"
proof (induction "\<lambda>(x::'a) (w::'b). (Inr x :: exc + 'a, w)" g rule: for_yield.induct)
  case (1 k)
  have "(case k w of
           (Yield x rest, w1) \<Rightarrow>
             (case (Inr x :: exc + 'a, w1) of
                (Inl e, w2) \<Rightarrow> (Raise e, w2)
              | (Inr y, w2) \<Rightarrow> (Yield y (for_yield (\<lambda>x w. (Inr x, w)) rest), w2))
         | (Stop, w1) \<Rightarrow> (Stop, w1)
         | (Raise e, w1) \<Rightarrow> (Raise e, w1)) = k w" for w
  proof (cases "k w")
    case kw: (Pair st w1)
    show ?thesis
    proof (cases st)
      case (Yield x rest)
      with kw 1 [OF kw [symmetric] Yield refl refl] show ?thesis by simp
    qed (use kw in simp_all)
  qed
  then show ?case by simp
qed

section \<open>What the adapters return\<close>

lemma processor_call_generator:
  "processor (\<lambda>stream. call_generator (body stream)) stream w = (Inr (Generator (body stream)), w)"
  by (simp add: processor_def call_generator_def)

lemma generator_returns_new_func:
  "generator f stream w = (Inr (Generator (new_func f stream)), w)"
  by (simp add: generator_def processor_call_generator)

lemma collect_new_func:
  "collect (new_func f stream) w =
     (case collect (iter stream) w of
        (xs, Some e, w1) \<Rightarrow> (xs, Some e, w1)
      | (xs, None, w1) \<Rightarrow>
          (case f w1 of
             (Inl e, w2) \<Rightarrow> (xs, Some e, w2)
           | (Inr produced, w2) \<Rightarrow>
               (case collect (iter produced) w2 of (ys, r, w3) \<Rightarrow> (xs @ ys, r, w3))))"
proof -
  have after: "collect (Gen (\<lambda>w. case f w of
                   (Inl e, w1) \<Rightarrow> (Raise e, w1)
                 | (Inr produced, w1) \<Rightarrow> resume (yield_from (iter produced) finished) w1)) w1
     = (case f w1 of
          (Inl e, w2) \<Rightarrow> ([], Some e, w2)
        | (Inr produced, w2) \<Rightarrow> collect (iter produced) w2)" for w1
  proof (cases "f w1")
    case (Pair r w2)
    show ?thesis
    proof (cases r)
      case (Inl e)
      with Pair show ?thesis by simp
    next
      case (Inr produced)
      have "collect (yield_from (iter produced) finished) w2 = collect (iter produced) w2"
        by (simp add: collect_yield_from collect_finished split: prod.splits option.splits)
      with Pair Inr show ?thesis
        by (simp add: collect_resume [of "yield_from (iter produced) finished"])
    qed
  qed
  show ?thesis
    unfolding new_func_def collect_yield_from after
    by (simp split: prod.splits option.splits sum.splits)
qed

lemma stage_returns_generator:
  "stage E c s w =
     (Inr (Generator (case c of
                        Read filename params \<Rightarrow> new_func (call_generator (read_cmd E filename params)) s
                      | _ \<Rightarrow> for_yield (loop_body E c) (iter s))), w)"
  by (cases c)
     (simp_all add: generator_returns_new_func processor_call_generator head_cmd_def filter_cmd_def
        to_cmd_def info_cmd_def print_cmd_def)

lemma pipe_through_stages:
  "\<exists>s'. pipe_through (map (stage E) cs) s w = (Inr s', w)"
proof (induction cs arbitrary: s)
  case Nil
  then show ?case by simp
next
  case (Cons c cs)
  then show ?case by (simp add: stage_returns_generator)
qed

section \<open>The source adapter\<close>

text \<open>
  C4. The stage that \<^verbatim>\<open>generator\<close> makes of a source function \<open>f\<close> is the generator
  \<open>new_func f stream\<close>. Consumed to its end, it gives the items of the incoming stream,
  unchanged and in order; if the incoming stream raised, that is all; otherwise \<open>f\<close> is
  called then, and the items of what it returns follow. So two chained \<^verbatim>\<open>read\<close> stages,
  each of which alone yields one data frame, yield the two frames, the first command's
  first.
\<close>

theorem generator_passes_through_then_appends:
  "generator f stream w = (Inr (Generator (new_func f stream)), w)
   \<and> collect (new_func f stream) w =
       (case collect (iter stream) w of
          (xs, Some e, w1) \<Rightarrow> (xs, Some e, w1)
        | (xs, None, w1) \<Rightarrow>
            (case f w1 of
               (Inl e, w2) \<Rightarrow> (xs, Some e, w2)
             | (Inr produced, w2) \<Rightarrow>
                 (case collect (iter produced) w2 of (ys, r, w3) \<Rightarrow> (xs @ ys, r, w3))))
   \<and> (collect (read_cmd E a pa) w = ([DF da], None, w)
        \<longrightarrow> collect (read_cmd E b pb) w = ([DF db], None, w)
        \<longrightarrow> (\<exists>s. pipe_through [stage E (Read a pa), stage E (Read b pb)] EmptyTuple w = (Inr s, w)
                \<and> collect (iter s) w = ([DF da, DF db], None, w)))"
  by (simp add: generator_returns_new_func collect_new_func call_generator_def)

theorem generator_passes_through_then_appends_witness:
  "\<exists>s. pipe_through [stage demo_engine (Read ''a.csv'' []), stage demo_engine (Read ''b.csv'' [])]
          EmptyTuple demo_world = (Inr s, demo_world)
       \<and> collect (iter s) demo_world = ([DF [''x'', ''1'', ''2''], DF [''x'', ''3'']], None, demo_world)"
proof -
  have a: "collect (read_cmd demo_engine ''a.csv'' []) demo_world
             = ([DF [''x'', ''1'', ''2'']], None, demo_world)"
    by (simp add: read_cmd_def demo_engine_def demo_world_def posix_splitext_def
        CONFIG_read_functions_def demo_read_def finished_def)
  have b: "collect (read_cmd demo_engine ''b.csv'' []) demo_world
             = ([DF [''x'', ''3'']], None, demo_world)"
    by (simp add: read_cmd_def demo_engine_def demo_world_def posix_splitext_def
        CONFIG_read_functions_def demo_read_def finished_def)
  note t = generator_passes_through_then_appends
      [of "call_generator (read_cmd demo_engine ''b.csv'' [])" EmptyTuple demo_world
          demo_engine "''a.csv''" "[]" "[''x'', ''1'', ''2'']" "''b.csv''" "[]" "[''x'', ''3'']"]
  show ?thesis
    using t [THEN conjunct2, THEN conjunct2, rule_format, OF a b] .
qed

section \<open>The read stage\<close>

lemma collect_read_stage_empty:
  "collect (new_func (call_generator (read_cmd E filename params)) EmptyTuple) w
     = collect (read_cmd E filename params) w"
  by (simp add: collect_new_func call_generator_def split: prod.splits)

text \<open>
  C8. The \<^verbatim>\<open>read\<close> stage on an existing file whose extension is \<^verbatim>\<open>.csv\<close> or
  \<^verbatim>\<open>.xlsx\<close>, with loose parameters that parse: the reader of that extension is called
  with the file name and the parsed parameters, and the stage yields exactly the one data
  frame it returns (and raises what it raises). On a file that does not exist the stage
  raises \<^verbatim>\<open>FileNotFoundError\<close> and yields nothing.
\<close>

theorem read_stage_yields_one_dataset:
  "(os_isfile E (ext w) filename
      \<longrightarrow> snd (os_splitext E filename) \<in> {''.csv'', ''.xlsx''}
      \<longrightarrow> args_to_dict E params = Inr pd_params
      \<longrightarrow> (\<exists>s. stage E (Read filename params) EmptyTuple w = (Inr s, w)
              \<and> collect (iter s) w =
                  (case (if snd (os_splitext E filename) = ''.csv'' then pd_read_csv E
                         else pd_read_excel E) filename pd_params (ext w) of
                     Inr df \<Rightarrow> ([DF df], None, w)
                   | Inl e \<Rightarrow> ([], Some e, w))))
   \<and> (\<not> os_isfile E (ext w) filename
      \<longrightarrow> (\<exists>s. stage E (Read filename params) EmptyTuple w = (Inr s, w)
              \<and> collect (iter s) w
                  = ([], Some (Exc FileNotFoundError (filename @ '' not found.'')), w)))"
proof -
  have one: "collect (read_cmd E filename params) w =
               (case (if snd (os_splitext E filename) = ''.csv'' then pd_read_csv E
                      else pd_read_excel E) filename pd_params (ext w) of
                  Inr df \<Rightarrow> ([DF df], None, w)
                | Inl e \<Rightarrow> ([], Some e, w))"
    if "os_isfile E (ext w) filename" "snd (os_splitext E filename) \<in> {''.csv'', ''.xlsx''}"
       "args_to_dict E params = Inr pd_params"
  proof -
    obtain fname fextension where sp: "os_splitext E filename = (fname, fextension)"
      by (cases "os_splitext E filename")
    have p: "(if params \<noteq> [] then args_to_dict E params else Inr Map.empty) = Inr pd_params"
      using that(3) by (auto simp: args_to_dict_empty)
    show ?thesis
      using that(1,2) sp
      by (auto simp: read_cmd_def p CONFIG_read_functions_def finished_def split: sum.splits)
  qed
  have none: "collect (read_cmd E filename params) w
                = ([], Some (Exc FileNotFoundError (filename @ '' not found.'')), w)"
    if "\<not> os_isfile E (ext w) filename"
    using that by (simp add: read_cmd_def)
  show ?thesis
    using one none by (simp add: generator_returns_new_func collect_read_stage_empty)
qed

theorem read_stage_yields_one_dataset_witness:
  "(\<exists>s. stage demo_engine (Read ''a.csv'' ''sep=1'') EmptyTuple demo_world = (Inr s, demo_world)
       \<and> collect (iter s) demo_world = ([DF [''x'', ''1'', ''2'']], None, demo_world))
   \<and> (\<exists>s. stage demo_engine (Read ''missing.csv'' []) EmptyTuple demo_world = (Inr s, demo_world)
       \<and> collect (iter s) demo_world
           = ([], Some (Exc FileNotFoundError ''missing.csv not found.''), demo_world))"
proof -
  have 1: "os_isfile demo_engine (ext demo_world) ''a.csv''"
    by (simp add: demo_engine_def demo_world_def)
  have 2: "snd (os_splitext demo_engine ''a.csv'') \<in> {''.csv'', ''.xlsx''}"
    by (simp add: demo_engine_def posix_splitext_def)
  have 3: "args_to_dict demo_engine ''sep=1'' = Inr [''sep'' \<mapsto> VInt 1]"
    by (simp add: args_to_dict_def literal_or_raw_def demo_engine_def demo_literal_eval_def)
  have 4: "(if snd (os_splitext demo_engine ''a.csv'') = ''.csv'' then pd_read_csv demo_engine
            else pd_read_excel demo_engine) ''a.csv'' [''sep'' \<mapsto> VInt 1] (ext demo_world)
           = Inr [''x'', ''1'', ''2'']"
    by (simp add: demo_engine_def demo_world_def demo_read_def)
  have 5: "\<not> os_isfile demo_engine (ext demo_world) ''missing.csv''"
    by (simp add: demo_engine_def demo_world_def)
  note a = read_stage_yields_one_dataset
      [of demo_engine demo_world "''a.csv''" "''sep=1''" "[''sep'' \<mapsto> VInt 1]"]
  note m = read_stage_yields_one_dataset
      [of demo_engine demo_world "''missing.csv''" "[]" Map.empty]
  have x: "\<exists>s. stage demo_engine (Read ''a.csv'' ''sep=1'') EmptyTuple demo_world = (Inr s, demo_world)
       \<and> collect (iter s) demo_world = ([DF [''x'', ''1'', ''2'']], None, demo_world)"
    using a [THEN conjunct1, rule_format, OF 1 2 3] unfolding 4 by simp
  have y: "\<exists>s. stage demo_engine (Read ''missing.csv'' []) EmptyTuple demo_world = (Inr s, demo_world)
       \<and> collect (iter s) demo_world
           = ([], Some (Exc FileNotFoundError ''missing.csv not found.''), demo_world)"
    using m [THEN conjunct2, rule_format, OF 5] by simp
  show ?thesis
    using x y by (rule conjI)
qed

section \<open>An extension that the lookup tables do not have\<close>

lemma resume_read_cmd_unknown_extension:
  assumes "snd (os_splitext E filename) \<notin> dom (CONFIG_read_functions E)"
  shows "resume (read_cmd E filename params) w =
           (Raise (if \<not> os_isfile E (ext w) filename
                   then Exc FileNotFoundError (filename @ '' not found.'')
                   else (case args_to_dict E params of
                           Inl e \<Rightarrow> e
                         | Inr pd_params \<Rightarrow> Exc KeyError (py_repr E (snd (os_splitext E filename))))), w)"
  using assms
  by (cases "os_splitext E filename")
     (auto simp: read_cmd_def domIff args_to_dict_empty split: sum.splits)

lemma to_body_unknown_extension:
  assumes "snd (os_splitext E filename) \<notin> dom (CONFIG_to_functions E)"
  shows "to_body E (Some filename) params df w
           = (Inl (Exc KeyError (py_repr E (snd (os_splitext E filename)))), w)"
  using assms by (cases "os_splitext E filename") (auto simp: to_body_def domIff)

text \<open>
  C7, as the code has it. The tables are consulted when a stage's body runs, not when the
  pipeline is composed. The body of \<^verbatim>\<open>read\<close> on a file name whose extension is not in
  \<^verbatim>\<open>CONFIG["read_functions"]\<close> always raises and yields nothing: \<^verbatim>\<open>FileNotFoundError\<close>
  when the file does not exist, else what the parser raises on the loose parameters, else
  \<^verbatim>\<open>KeyError\<close>. The stage \<^verbatim>\<open>to\<close> looks the
  extension up once for each incoming item: an incoming item makes it raise
  \<^verbatim>\<open>KeyError\<close> in the world the item arrived in (nothing is written); when the incoming
  stream ends or raises, so does the stage.
\<close>

theorem unknown_extension_raises_when_reached:
  "(snd (os_splitext E filename) \<notin> dom (CONFIG_read_functions E)
      \<longrightarrow> collect (read_cmd E filename params) w =
            ([], Some (if \<not> os_isfile E (ext w) filename
                       then Exc FileNotFoundError (filename @ '' not found.'')
                       else (case args_to_dict E params of
                               Inl e \<Rightarrow> e
                             | Inr pd_params \<Rightarrow>
                                 Exc KeyError (py_repr E (snd (os_splitext E filename))))), w))
   \<and> (snd (os_splitext E filename) \<notin> dom (CONFIG_to_functions E)
      \<longrightarrow> resume (to_cmd E dfs (Some filename) params) w =
            (case resume (iter dfs) w of
               (Yield df rest, w1) \<Rightarrow>
                 (Raise (Exc KeyError (py_repr E (snd (os_splitext E filename)))), w1)
             | (Stop, w1) \<Rightarrow> (Stop, w1)
             | (Raise e, w1) \<Rightarrow> (Raise e, w1)))"
proof -
  have r: "collect (read_cmd E filename params) w =
            ([], Some (if \<not> os_isfile E (ext w) filename
                       then Exc FileNotFoundError (filename @ '' not found.'')
                       else (case args_to_dict E params of
                               Inl e \<Rightarrow> e
                             | Inr pd_params \<Rightarrow>
                                 Exc KeyError (py_repr E (snd (os_splitext E filename))))), w)"
    if "snd (os_splitext E filename) \<notin> dom (CONFIG_read_functions E)"
    using resume_read_cmd_unknown_extension [OF that, of params w]
    by (simp add: collect_resume [of "read_cmd E filename params"])
  have t: "resume (to_cmd E dfs (Some filename) params) w =
            (case resume (iter dfs) w of
               (Yield df rest, w1) \<Rightarrow>
                 (Raise (Exc KeyError (py_repr E (snd (os_splitext E filename)))), w1)
             | (Stop, w1) \<Rightarrow> (Stop, w1)
             | (Raise e, w1) \<Rightarrow> (Raise e, w1))"
    if "snd (os_splitext E filename) \<notin> dom (CONFIG_to_functions E)"
    by (simp add: to_cmd_def resume_for_yield to_body_unknown_extension [OF that]
        split: prod.splits step.splits)
  show ?thesis using r t by blast
qed

theorem unknown_extension_raises_when_reached_witness:
  "collect (read_cmd demo_engine ''notes.txt'' []) demo_world
     = ([], Some (Exc KeyError (quoted ''.txt'')), demo_world)
   \<and> resume (to_cmd demo_engine (Generator (read_cmd demo_engine ''a.csv'' [])) (Some ''out.txt'') [])
        demo_world = (Raise (Exc KeyError (quoted ''.txt'')), demo_world)"
proof -
  have 1: "snd (os_splitext demo_engine ''notes.txt'') \<notin> dom (CONFIG_read_functions demo_engine)"
    by (simp add: demo_engine_def posix_splitext_def CONFIG_read_functions_def)
  have 2: "snd (os_splitext demo_engine ''out.txt'') \<notin> dom (CONFIG_to_functions demo_engine)"
    by (simp add: demo_engine_def posix_splitext_def CONFIG_to_functions_def)
  have 3: "resume (iter (Generator (read_cmd demo_engine ''a.csv'' []))) demo_world
             = (Yield (DF [''x'', ''1'', ''2'']) finished, demo_world)"
    by (simp add: read_cmd_def demo_engine_def demo_world_def posix_splitext_def
        CONFIG_read_functions_def demo_read_def)
  have 4: "os_isfile demo_engine (ext demo_world) ''notes.txt''"
    by (simp add: demo_engine_def demo_world_def)
  have 5: "snd (os_splitext demo_engine ''notes.txt'') = ''.txt''"
          "snd (os_splitext demo_engine ''out.txt'') = ''.txt''"
          "py_repr demo_engine = quoted"
    by (simp_all add: demo_engine_def posix_splitext_def)
  show ?thesis
    using unknown_extension_raises_when_reached
            [of demo_engine "''notes.txt''" "[]" demo_world]
          unknown_extension_raises_when_reached
            [of demo_engine "''out.txt''" "[]" demo_world "Generator (read_cmd demo_engine ''a.csv'' [])"]
          1 2 3 4 5
    by (simp add: args_to_dict_empty)
qed

text \<open>
  C7, as the claim states it, fails: \<^verbatim>\<open>to -f out.txt\<close> as the only command receives the
  empty stream, never looks the extension up, and the run ends normally with nothing
  written and nothing reported.
\<close>

theorem to_unknown_extension_counterexample:
  "snd (os_splitext demo_engine ''out.txt'') \<notin> dom (CONFIG_to_functions demo_engine)
   \<and> process_commands [stage demo_engine (To (Some ''out.txt'') [])] demo_world
       = (Inr (), demo_world)"
  by (simp add: demo_engine_def posix_splitext_def CONFIG_to_functions_def process_commands_def
      processor_def call_generator_def to_cmd_def)

section \<open>An exception at the call of a stage function\<close>

lemma raises_at_once_stage:
  assumes "\<forall>w. resume (iter s) w = (Raise e, w)"
    and "stage E c s w = (Inr s', w')"
  shows "w' = w \<and> (\<forall>w. resume (iter s') w = (Raise e, w))"
  using assms
  by (cases c)
     (auto simp: stage_returns_generator new_func_def resume_yield_from resume_for_yield
        simp del: stage.simps)

lemma raises_at_once_pipe_through:
  assumes "\<forall>w. resume (iter s) w = (Raise e, w)"
  shows "\<exists>s'. pipe_through (map (stage E) cs) s w = (Inr s', w)
              \<and> (\<forall>w. resume (iter s') w = (Raise e, w))"
  using assms
proof (induction cs arbitrary: s)
  case Nil
  then show ?case by simp
next
  case (Cons c cs)
  obtain s1 where s1: "stage E c s w = (Inr s1, w)"
    by (simp add: stage_returns_generator)
  from raises_at_once_stage [OF Cons.prems s1]
  have "\<forall>w. resume (iter s1) w = (Raise e, w)" by simp
  from Cons.IH [OF this] s1 show ?case by simp
qed

text \<open>
  C10. When the call \<^verbatim>\<open>f(stream, ...)\<close> itself raises \<open>e\<close>, the adapted stage echoes
  \<^verbatim>\<open>Error: \<close> and the text of \<open>e\<close> to the error channel and returns \<^verbatim>\<open>None\<close>, not a
  stream. Whatever commands of the stage library follow, each returns a generator over
  it without complaint, and the loop of \<^verbatim>\<open>process_commands\<close> that consumes the result
  raises \<^verbatim>\<open>TypeError\<close>: \<^verbatim>\<open>None\<close> is not iterable.
\<close>

theorem processor_returns_None_at_call_time_exception:
  assumes "f stream w = (Inl e, w1)"
  shows "processor f stream w = (Inr NoneValue, echo_err (''Error: '' @ str_of e) w1)
     \<and> (\<exists>s. pipe_through (processor f # map (stage E) cs) stream w
               = (Inr s, echo_err (''Error: '' @ str_of e) w1)
           \<and> drain (iter s) (echo_err (''Error: '' @ str_of e) w1)
               = (Inl none_not_iterable, echo_err (''Error: '' @ str_of e) w1))"
proof -
  let ?w = "echo_err (''Error: '' @ str_of e) w1"
  have p: "processor f stream w = (Inr NoneValue, ?w)"
    using assms by (simp add: processor_def)
  have "\<exists>s'. pipe_through (map (stage E) cs) NoneValue ?w = (Inr s', ?w)
              \<and> (\<forall>w. resume (iter s') w = (Raise none_not_iterable, w))"
    by (rule raises_at_once_pipe_through) simp
  then obtain s where s: "pipe_through (map (stage E) cs) NoneValue ?w = (Inr s, ?w)"
    and r: "\<forall>w. resume (iter s) w = (Raise none_not_iterable, w)"
    by blast
  have "drain (iter s) ?w = (Inl none_not_iterable, ?w)"
    using r by (simp add: drain_resume [of "iter s"])
  with p s show ?thesis by simp
qed

theorem processor_returns_None_at_call_time_exception_witness:
  "processor (\<lambda>stream w. (Inl (Exc ExternalError ''boom''), w))
        (EmptyTuple :: (demo_frame item, demo_disk world) stream) demo_world
      = (Inr NoneValue, demo_world\<lparr>stderr := [''Error: boom'']\<rparr>)
   \<and> process_commands
        (processor (\<lambda>stream w. (Inl (Exc ExternalError ''boom''), w)) # map (stage demo_engine) [Head 3])
        demo_world
      = (Inl none_not_iterable, demo_world\<lparr>stderr := [''Error: boom'']\<rparr>)"
proof -
  have w: "echo_err (''Error: '' @ str_of (Exc ExternalError ''boom'')) demo_world
             = demo_world\<lparr>stderr := [''Error: boom'']\<rparr>"
    by (simp add: echo_err_def demo_world_def)
  show ?thesis
    using processor_returns_None_at_call_time_exception
            [of "\<lambda>stream w. (Inl (Exc ExternalError ''boom''), w)" EmptyTuple demo_world
                "Exc ExternalError ''boom''" demo_world demo_engine "[Head 3]"]
    unfolding w
    by (auto simp: process_commands_def)
qed

section \<open>The composer\<close>

lemma pipe_through_append:
  "pipe_through (ps @ [p]) s w =
     (case pipe_through ps s w of
        (Inl e, w1) \<Rightarrow> (Inl e, w1)
      | (Inr s1, w1) \<Rightarrow> p s1 w1)"
  by (induction ps arbitrary: s w) (auto split: prod.splits sum.splits)

lemma stream_at_pipe_through:
  "i \<le> length ps \<Longrightarrow> stream_at ps i w = pipe_through (take i ps) EmptyTuple w"
proof (induction i)
  case 0
  then show ?case by simp
next
  case (Suc i)
  then have "take (Suc i) ps = take i ps @ [ps ! i]"
    by (simp add: take_Suc_conv_app_nth)
  with Suc show ?case by (simp add: pipe_through_append)
qed

text \<open>
  C6. \<^verbatim>\<open>process_commands\<close> computes \<open>stream\<^sub>i = stage\<^sub>i(stream\<^sub>i\<^sub>-\<^sub>1)\<close> from the empty stream,
  in the order of the list, and then consumes the last stream to its end: the world it
  leaves is the world after every item has been pulled, the items are dropped, and an
  exception of the stream is its result. For the commands of the stage library the
  composition itself changes nothing in the world and raises nothing, so every effect of
  a stage happens while the stream is consumed.
\<close>

theorem process_commands_folds_then_drains:
  "process_commands ps w =
     (case stream_at ps (length ps) w of
        (Inl e, w1) \<Rightarrow> (Inl e, w1)
      | (Inr s, w1) \<Rightarrow>
          (case collect (iter s) w1 of
             (xs, None, w2) \<Rightarrow> (Inr (), w2)
           | (xs, Some e, w2) \<Rightarrow> (Inl e, w2)))
   \<and> (\<exists>s. stream_at (map (stage E) cs) (length cs) w' = (Inr s, w'))"
proof -
  have "\<exists>s. stream_at (map (stage E) cs) (length cs) w' = (Inr s, w')"
    using pipe_through_stages [of E cs EmptyTuple w']
    by (simp add: stream_at_pipe_through)
  then show ?thesis
    by (simp add: process_commands_def stream_at_pipe_through drain_collect
        split: prod.splits sum.splits)
qed

theorem process_commands_folds_then_drains_witness:
  "process_commands (map (stage demo_engine) [Read ''a.csv'' [], Head 1]) demo_world
     = (Inr (), demo_world\<lparr>stdout := [''x'' @ [CHR 0x0A]]\<rparr>)
   \<and> (\<exists>s. stream_at (map (stage demo_engine) [Read ''a.csv'' [], Head 1]) 2 demo_world
            = (Inr s, demo_world))"
proof -
  have c: "collect (head_cmd demo_engine
                      (Generator (new_func (call_generator (read_cmd demo_engine ''a.csv'' []))
                                    EmptyTuple)) 1) demo_world
             = ([NoneItem], None, demo_world\<lparr>stdout := [''x'' @ [CHR 0x0A]]\<rparr>)"
    by (simp add: head_cmd_def head_body_def new_func_def call_generator_def read_cmd_def
        demo_engine_def demo_world_def posix_splitext_def CONFIG_read_functions_def
        demo_read_def demo_render_def finished_def echo_def)
  show ?thesis
    using process_commands_folds_then_drains
            [of "map (stage demo_engine) [Read ''a.csv'' [], Head 1]" demo_world
                demo_engine "[Read ''a.csv'' [], Head 1]" demo_world]
    by (simp add: numeral_2_eq_2 generator_returns_new_func processor_call_generator c)
qed

section \<open>The order of the items\<close>

lemma for_yield_push_item_Cons:
  "for_yield (push_item bodies) (for_yield body g) = for_yield (push_item (body # bodies)) g"
proof -
  have "push_item (body # bodies)
          = (\<lambda>x w. case body x w of (Inl e, w1) \<Rightarrow> (Inl e, w1) | (Inr y, w1) \<Rightarrow> push_item bodies y w1)"
    by (simp add: fun_eq_iff)
  then show ?thesis by (simp only: for_yield_for_yield)
qed

lemma yield_from_finished: "yield_from g finished = g"
proof (induction g "finished :: ('a, 'b) gen" rule: yield_from.induct)
  case (1 k)
  have "(case k w of
           (Yield x rest, w1) \<Rightarrow> (Yield x (yield_from rest finished), w1)
         | (Stop, w1) \<Rightarrow> resume finished w1
         | (Raise e, w1) \<Rightarrow> (Raise e, w1)) = k w" for w
  proof (cases "k w")
    case kw: (Pair st w1)
    show ?thesis
    proof (cases st)
      case (Yield x rest)
      with kw 1 [OF kw [symmetric] Yield] show ?thesis by simp
    qed (use kw in \<open>simp_all add: finished_def\<close>)
  qed
  then show ?case by simp
qed

lemma yield_from_assoc:
  "yield_from (yield_from g a) b = yield_from g (yield_from a b)"
proof (induction g a rule: yield_from.induct)
  case (1 k a)
  have "(case (case k w of
                 (Yield x rest, w1) \<Rightarrow> (Yield x (yield_from rest a), w1)
               | (Stop, w1) \<Rightarrow> resume a w1
               | (Raise e, w1) \<Rightarrow> (Raise e, w1)) of
           (Yield x rest, w1) \<Rightarrow> (Yield x (yield_from rest b), w1)
         | (Stop, w1) \<Rightarrow> resume b w1
         | (Raise e, w1) \<Rightarrow> (Raise e, w1))
      = (case k w of
           (Yield x rest, w1) \<Rightarrow> (Yield x (yield_from rest (yield_from a b)), w1)
         | (Stop, w1) \<Rightarrow> resume (yield_from a b) w1
         | (Raise e, w1) \<Rightarrow> (Raise e, w1))" for w
  proof (cases "k w")
    case kw: (Pair st w1)
    show ?thesis
    proof (cases st)
      case (Yield x rest)
      with kw 1 [OF kw [symmetric] Yield] show ?thesis by simp
    next
      case Stop
      with kw show ?thesis by (simp add: resume_yield_from [of a b])
    next
      case (Raise e)
      with kw show ?thesis by simp
    qed
  qed
  then show ?case by simp
qed

lemma for_yield_yield_from:
  "for_yield body (yield_from g a) = yield_from (for_yield body g) (for_yield body a)"
proof (induction g a rule: yield_from.induct)
  case (1 k a)
  have "(case (case k w of
                 (Yield x rest, w1) \<Rightarrow> (Yield x (yield_from rest a), w1)
               | (Stop, w1) \<Rightarrow> resume a w1
               | (Raise e, w1) \<Rightarrow> (Raise e, w1)) of
           (Yield x rest, w1) \<Rightarrow>
             (case body x w1 of
                (Inl e, w2) \<Rightarrow> (Raise e, w2)
              | (Inr y, w2) \<Rightarrow> (Yield y (for_yield body rest), w2))
         | (Stop, w1) \<Rightarrow> (Stop, w1)
         | (Raise e, w1) \<Rightarrow> (Raise e, w1))
      = (case (case k w of
                 (Yield x rest, w1) \<Rightarrow>
                   (case body x w1 of
                      (Inl e, w2) \<Rightarrow> (Raise e, w2)
                    | (Inr y, w2) \<Rightarrow> (Yield y (for_yield body rest), w2))
               | (Stop, w1) \<Rightarrow> (Stop, w1)
               | (Raise e, w1) \<Rightarrow> (Raise e, w1)) of
           (Yield x rest, w1) \<Rightarrow> (Yield x (yield_from rest (for_yield body a)), w1)
         | (Stop, w1) \<Rightarrow> resume (for_yield body a) w1
         | (Raise e, w1) \<Rightarrow> (Raise e, w1))" for w
  proof (cases "k w")
    case kw: (Pair st w1)
    show ?thesis
    proof (cases st)
      case (Yield x rest)
      show ?thesis
      proof (cases "body x w1")
        case bx: (Pair r w2)
        show ?thesis
          using kw Yield bx 1 [OF kw [symmetric] Yield] by (cases r) simp_all
      qed
    next
      case Stop
      with kw show ?thesis by (simp add: resume_for_yield [of body a])
    next
      case (Raise e)
      with kw show ?thesis by simp
    qed
  qed
  then show ?case by simp
qed

lemma new_func_call_generator:
  "new_func (call_generator g) stream = yield_from (iter stream) g"
  by (simp add: new_func_def call_generator_def yield_from_finished)

lemma push_item_after_read:
  "push_item (loop_body E (Read filename params) # bodies) = push_item bodies"
  by (simp add: fun_eq_iff)

lemma pipeline_in_order:
  "\<exists>s'. pipe_through (map (stage E) cs) s w = (Inr s', w)
       \<and> iter s' = yield_from (for_yield (push_item (map (loop_body E) cs)) (iter s)) (in_order E cs)"
proof (induction cs arbitrary: s)
  case Nil
  have "push_item [] = (\<lambda>(x::'a item) (w::'b world). (Inr x, w))"
    by (simp add: fun_eq_iff)
  then show ?case by (simp add: for_yield_ident yield_from_finished)
next
  case (Cons c cs)
  let ?B = "push_item (map (loop_body E) cs)"
  show ?case
  proof (cases "is_transform c")
    case True
    have st: "stage E c s w = (Inr (Generator (for_yield (loop_body E c) (iter s))), w)"
      using True by (cases c) (simp_all add: stage_returns_generator del: stage.simps)
    have io: "in_order E (c # cs) = in_order E cs"
      using True by (cases c) simp_all
    from Cons.IH [of "Generator (for_yield (loop_body E c) (iter s))"]
    obtain s' where p: "pipe_through (map (stage E) cs)
                          (Generator (for_yield (loop_body E c) (iter s))) w = (Inr s', w)"
      and i: "iter s' = yield_from (for_yield ?B (for_yield (loop_body E c) (iter s)))
                          (in_order E cs)"
      by auto
    have "pipe_through (map (stage E) (c # cs)) s w = (Inr s', w)"
      using p by (simp add: st del: stage.simps)
    moreover have "iter s' = yield_from (for_yield (push_item (map (loop_body E) (c # cs))) (iter s))
                               (in_order E (c # cs))"
      using i by (simp only: for_yield_push_item_Cons list.map io)
    ultimately show ?thesis by blast
  next
    case False
    then obtain filename params where c: "c = Read filename params"
      by (cases c) simp_all
    let ?g = "yield_from (iter s) (read_cmd E filename params)"
    have st: "stage E c s w = (Inr (Generator ?g), w)"
      by (simp add: c generator_returns_new_func new_func_call_generator)
    from Cons.IH [of "Generator ?g"]
    obtain s' where p: "pipe_through (map (stage E) cs) (Generator ?g) w = (Inr s', w)"
      and i: "iter s' = yield_from (for_yield ?B ?g) (in_order E cs)"
      by auto
    have "pipe_through (map (stage E) (c # cs)) s w = (Inr s', w)"
      using p by (simp add: st del: stage.simps)
    moreover have "iter s' = yield_from (for_yield (push_item (map (loop_body E) (c # cs))) (iter s))
                               (in_order E (c # cs))"
      using i
      by (simp only: c list.map push_item_after_read in_order.simps for_yield_yield_from
          yield_from_assoc)
    ultimately show ?thesis by blast
  qed
qed

lemma in_order_transforms: "\<forall>c \<in> set cs. is_transform c \<Longrightarrow> in_order E cs = finished"
proof (induction cs)
  case Nil
  then show ?case by simp
next
  case (Cons c cs)
  then show ?case by (cases c) simp_all
qed

lemma resume_new_func_empty:
  "resume (new_func f EmptyTuple) w =
     (case f w of
        (Inl e, w1) \<Rightarrow> (Raise e, w1)
      | (Inr produced, w1) \<Rightarrow> resume (iter produced) w1)"
  by (simp add: new_func_def yield_from_finished split: prod.splits sum.splits)

lemma new_func_upstream_first:
  "new_func f s = yield_from (iter s) (new_func f EmptyTuple)"
  by (simp add: new_func_def)

text \<open>
  C5. No stage reorders, drops or holds back an item, and the sources' items arrive in
  command-line order. For every command line and every incoming stream, the stream that
  the composed stages return is the incoming items, each sent through the loop bodies of
  all the stages in order (one pull at the sink is one pull upstream, see
  \<open>resume_for_yield\<close>), followed by \<open>in_order\<close>: the items of the first \<^verbatim>\<open>read\<close>, sent
  through the bodies of the stages after it, then those of the second \<^verbatim>\<open>read\<close>, and so
  on. A chain of transform stages alone is one loop over the incoming stream. For any
  source function \<open>f\<close>, the adapted source is the incoming stream followed by what \<open>f\<close>
  returns, \<open>f\<close> being called only when the incoming stream is exhausted, and each
  incoming item is handed on unchanged at the resumption at which it arrives. What a
  stage yields for an item is the filtered frame for \<^verbatim>\<open>filter\<close> and \<^verbatim>\<open>None\<close> for
  \<^verbatim>\<open>head\<close>, \<^verbatim>\<open>to\<close>, \<^verbatim>\<open>info\<close> and \<^verbatim>\<open>print\<close>.
\<close>

theorem stages_keep_the_order:
  "(\<exists>s'. pipe_through (map (stage E) cs) s w = (Inr s', w)
         \<and> iter s' = yield_from (for_yield (push_item (map (loop_body E) cs)) (iter s))
                        (in_order E cs))
   \<and> ((\<forall>c \<in> set cs. is_transform c)
      \<longrightarrow> (\<exists>s'. pipe_through (map (stage E) cs) s w = (Inr s', w)
               \<and> iter s' = for_yield (push_item (map (loop_body E) cs)) (iter s)))
   \<and> new_func f s = yield_from (iter s) (new_func f EmptyTuple)
   \<and> resume (new_func f EmptyTuple) w =
       (case f w of
          (Inl e, w1) \<Rightarrow> (Raise e, w1)
        | (Inr produced, w1) \<Rightarrow> resume (iter produced) w1)
   \<and> (resume (iter s) w = (Yield x rest, w1)
      \<longrightarrow> resume (new_func f s) w = (Yield x (new_func f (Generator rest)), w1))"
proof -
  have "resume (new_func f s) w = (Yield x (new_func f (Generator rest)), w1)"
    if "resume (iter s) w = (Yield x rest, w1)"
    using that by (simp add: new_func_def resume_yield_from)
  moreover have "\<exists>s'. pipe_through (map (stage E) cs) s w = (Inr s', w)
               \<and> iter s' = for_yield (push_item (map (loop_body E) cs)) (iter s)"
    if "\<forall>c \<in> set cs. is_transform c"
    using pipeline_in_order [of E cs s w] in_order_transforms [OF that, of E]
    by (simp add: yield_from_finished)
  ultimately show ?thesis
    using pipeline_in_order [of E cs s w] new_func_upstream_first [of f s]
      resume_new_func_empty [of f w]
    by blast
qed

theorem stages_keep_the_order_witness:
  "(\<exists>s'. pipe_through
            (map (stage demo_engine) [Read ''a.csv'' [], Read ''b.csv'' [], Filter ''1'', Read ''a.csv'' []])
            EmptyTuple demo_world = (Inr s', demo_world)
       \<and> collect (iter s') demo_world
           = ([DF [''x'', ''2''], DF [''x'', ''3''], DF [''x'', ''1'', ''2'']], None,
              demo_world\<lparr>stdout := [''x'' @ [CHR 0x0A] @ ''2'' @ [CHR 0x0A],
                                    ''x'' @ [CHR 0x0A] @ ''3'' @ [CHR 0x0A]]\<rparr>))
   \<and> (\<exists>s'. pipe_through (map (stage demo_engine) [Filter ''1'', Head 1])
            (Generator (in_order demo_engine [Read ''a.csv'' [], Read ''b.csv'' []])) demo_world
            = (Inr s', demo_world)
       \<and> collect (iter s') demo_world
           = ([NoneItem, NoneItem], None,
              demo_world\<lparr>stdout := [''x'' @ [CHR 0x0A] @ ''2'' @ [CHR 0x0A], ''x'' @ [CHR 0x0A],
                                    ''x'' @ [CHR 0x0A] @ ''3'' @ [CHR 0x0A], ''x'' @ [CHR 0x0A]]\<rparr>))
   \<and> (\<exists>rest. resume (new_func (call_generator (read_cmd demo_engine ''b.csv'' []))
                       (Generator (in_order demo_engine [Read ''a.csv'' [], Read ''b.csv'' []])))
                demo_world
               = (Yield (DF [''x'', ''1'', ''2''])
                    (new_func (call_generator (read_cmd demo_engine ''b.csv'' [])) (Generator rest)),
                  demo_world))"
proof -
  note defs = read_cmd_def filter_body_def head_body_def demo_engine_def demo_world_def
    posix_splitext_def CONFIG_read_functions_def demo_read_def demo_query_def demo_render_def
    finished_def echo_def
  note k1 = stages_keep_the_order
      [of demo_engine "[Read ''a.csv'' [], Read ''b.csv'' [], Filter ''1'', Read ''a.csv'' []]"
          EmptyTuple demo_world]
  have c1: "collect (yield_from
               (for_yield (push_item (map (loop_body demo_engine)
                    [Read ''a.csv'' [], Read ''b.csv'' [], Filter ''1'', Read ''a.csv'' []]))
                  (iter EmptyTuple))
               (in_order demo_engine
                  [Read ''a.csv'' [], Read ''b.csv'' [], Filter ''1'', Read ''a.csv'' []])) demo_world
           = ([DF [''x'', ''2''], DF [''x'', ''3''], DF [''x'', ''1'', ''2'']], None,
              demo_world\<lparr>stdout := [''x'' @ [CHR 0x0A] @ ''2'' @ [CHR 0x0A],
                                    ''x'' @ [CHR 0x0A] @ ''3'' @ [CHR 0x0A]]\<rparr>)"
    by (simp add: defs)
  have a: "\<exists>s'. pipe_through
            (map (stage demo_engine) [Read ''a.csv'' [], Read ''b.csv'' [], Filter ''1'', Read ''a.csv'' []])
            EmptyTuple demo_world = (Inr s', demo_world)
       \<and> collect (iter s') demo_world
           = ([DF [''x'', ''2''], DF [''x'', ''3''], DF [''x'', ''1'', ''2'']], None,
              demo_world\<lparr>stdout := [''x'' @ [CHR 0x0A] @ ''2'' @ [CHR 0x0A],
                                    ''x'' @ [CHR 0x0A] @ ''3'' @ [CHR 0x0A]]\<rparr>)"
  proof -
    from k1 [THEN conjunct1] obtain s' where
      p: "pipe_through
            (map (stage demo_engine) [Read ''a.csv'' [], Read ''b.csv'' [], Filter ''1'', Read ''a.csv'' []])
            EmptyTuple demo_world = (Inr s', demo_world)"
      and i: "iter s' = yield_from
               (for_yield (push_item (map (loop_body demo_engine)
                    [Read ''a.csv'' [], Read ''b.csv'' [], Filter ''1'', Read ''a.csv'' []]))
                  (iter EmptyTuple))
               (in_order demo_engine
                  [Read ''a.csv'' [], Read ''b.csv'' [], Filter ''1'', Read ''a.csv'' []])"
      by blast
    from p c1 [folded i] show ?thesis by blast
  qed
  let ?up = "Generator (in_order demo_engine [Read ''a.csv'' [], Read ''b.csv'' []])"
  note k2 = stages_keep_the_order
      [of demo_engine "[Filter ''1'', Head 1]" ?up demo_world
          "call_generator (read_cmd demo_engine ''b.csv'' [])"]
  have t: "\<forall>c \<in> set [Filter ''1'', Head 1]. is_transform c"
    by simp
  have c2: "collect (for_yield (push_item (map (loop_body demo_engine) [Filter ''1'', Head 1]))
                      (iter ?up)) demo_world
           = ([NoneItem, NoneItem], None,
              demo_world\<lparr>stdout := [''x'' @ [CHR 0x0A] @ ''2'' @ [CHR 0x0A], ''x'' @ [CHR 0x0A],
                                    ''x'' @ [CHR 0x0A] @ ''3'' @ [CHR 0x0A], ''x'' @ [CHR 0x0A]]\<rparr>)"
    by (simp add: defs)
  have b: "\<exists>s'. pipe_through (map (stage demo_engine) [Filter ''1'', Head 1]) ?up demo_world
            = (Inr s', demo_world)
       \<and> collect (iter s') demo_world
           = ([NoneItem, NoneItem], None,
              demo_world\<lparr>stdout := [''x'' @ [CHR 0x0A] @ ''2'' @ [CHR 0x0A], ''x'' @ [CHR 0x0A],
                                    ''x'' @ [CHR 0x0A] @ ''3'' @ [CHR 0x0A], ''x'' @ [CHR 0x0A]]\<rparr>)"
  proof -
    from k2 [THEN conjunct2, THEN conjunct1, THEN mp, OF t] obtain s' where
      p: "pipe_through (map (stage demo_engine) [Filter ''1'', Head 1]) ?up demo_world
            = (Inr s', demo_world)"
      and i: "iter s' = for_yield (push_item (map (loop_body demo_engine) [Filter ''1'', Head 1]))
                          (iter ?up)"
      by blast
    from p c2 [folded i] show ?thesis by blast
  qed
  have "\<exists>rest. resume (iter ?up) demo_world = (Yield (DF [''x'', ''1'', ''2'']) rest, demo_world)"
    by (simp add: defs)
  then obtain rest where r: "resume (iter ?up) demo_world
                               = (Yield (DF [''x'', ''1'', ''2'']) rest, demo_world)" ..
  note k3 = stages_keep_the_order
      [of demo_engine "[]" ?up demo_world "call_generator (read_cmd demo_engine ''b.csv'' [])"
          "DF [''x'', ''1'', ''2'']" rest demo_world]
  have c: "\<exists>rest. resume (new_func (call_generator (read_cmd demo_engine ''b.csv'' [])) ?up)
                demo_world
               = (Yield (DF [''x'', ''1'', ''2''])
                    (new_func (call_generator (read_cmd demo_engine ''b.csv'' [])) (Generator rest)),
                  demo_world)"
    using k3 [THEN conjunct2, THEN conjunct2, THEN conjunct2, THEN conjunct2, THEN mp, OF r]
    by (rule exI)
  show ?thesis
    using a b c by blast
qed

section \<open>An exception while a stream is consumed\<close>

text \<open>
  C1, at failing inputs. Every stage function of the file is a generator function, so the
  call inside the \<^verbatim>\<open>try\<close> of \<^verbatim>\<open>processor\<close> returns a generator and raises nothing: the
  adapter hands the generator on and its handler never runs. An exception raised when
  the generator is resumed reaches the loop of \<^verbatim>\<open>process_commands\<close>, outside every
  \<^verbatim>\<open>try\<close>: nothing is echoed to the error channel and the callback is left by the
  exception. So it is for a single stage whose body raises \<open>e\<close> at once, and for
  \<^verbatim>\<open>read -f a.csv filter -e "bad syntax (" to -f out.csv\<close>.
\<close>

theorem exception_during_consumption_escapes:
  "processor (\<lambda>stream. call_generator (body stream)) stream w = (Inr (Generator (body stream)), w)
   \<and> process_commands [processor (\<lambda>stream. call_generator (Gen (\<lambda>w. (Raise e, w))))] w = (Inl e, w)
   \<and> process_commands
        (map (stage demo_engine) [Read ''a.csv'' [], Filter ''bad syntax ('', To (Some ''out.csv'') []])
        demo_world
       = (Inl (Exc ExternalError ''invalid syntax''), demo_world)"
  by (simp add: process_commands_def generator_def processor_def call_generator_def new_func_def
      read_cmd_def filter_cmd_def to_cmd_def filter_body_def demo_engine_def demo_world_def
      posix_splitext_def CONFIG_read_functions_def demo_read_def demo_query_def finished_def)

text \<open>
  C2, at the failing input \<^verbatim>\<open>read -f missing.csv head -l 3\<close>: nothing is printed by
  \<^verbatim>\<open>head\<close> and nothing is echoed to the error channel, and \<^verbatim>\<open>process_commands\<close> is
  left by the \<^verbatim>\<open>FileNotFoundError\<close> of \<^verbatim>\<open>read_cmd\<close>, uncaught.
\<close>

theorem read_missing_then_head_crashes:
  "process_commands (map (stage demo_engine) [Read ''missing.csv'' [], Head 3]) demo_world
     = (Inl (Exc FileNotFoundError ''missing.csv not found.''), demo_world)"
  by (simp add: process_commands_def generator_def processor_def call_generator_def new_func_def
      read_cmd_def head_cmd_def demo_engine_def demo_world_def)

end
